theory Spec2Isabelle
  imports Complex_Main "HOL-Library.Sublist"
begin

section \<open>Values exchanged with the permit map service\<close>

text \<open>
  The scraper (\<^verbatim>\<open>scripts/bygglov_scraper.py\<close>) works on what \<^verbatim>\<open>response.json()\<close>
  returns: Python values built from \<^verbatim>\<open>None\<close>, booleans, integers, floats, strings,
  lists and dictionaries with string keys. A dictionary is an association list whose
  lookup finds the first binding of a key (a parsed dictionary has each key once).
  Python floats are taken as exact rationals: every finite double is a rational, and
  the rounding of float arithmetic, infinities and NaN are left out of the model.
  Strings are byte lists, so a character beyond ASCII is its UTF-8 bytes.
\<close>

datatype json =
    JNull
  | JBool bool
  | JInt int
  | JFloat rat
  | JStr string
  | JArr "json list"
  | JObj "(string \<times> json) list"

text \<open>The exceptions that the modelled code can raise, as values.\<close>

datatype py_error = AttributeError | TypeError | IndexError | KeyError

text \<open>Python truth value testing (\<^verbatim>\<open>if x\<close>, \<^verbatim>\<open>not x\<close>, \<^verbatim>\<open>a and b\<close>).\<close>

fun truthy :: "json \<Rightarrow> bool" where
  "truthy JNull = False"
| "truthy (JBool b) = b"
| "truthy (JInt i) = (i \<noteq> 0)"
| "truthy (JFloat r) = (r \<noteq> 0)"
| "truthy (JStr s) = (s \<noteq> [])"
| "truthy (JArr xs) = (xs \<noteq> [])"
| "truthy (JObj kvs) = (kvs \<noteq> [])"

text \<open>
  \<^verbatim>\<open>x.get(key, default)\<close>: only a dictionary has the method; on anything else the
  attribute lookup raises \<^verbatim>\<open>AttributeError\<close>. A key bound to \<^verbatim>\<open>None\<close> is present, so
  the default is not used for it.
\<close>

fun py_get :: "json \<Rightarrow> string \<Rightarrow> json \<Rightarrow> py_error + json" where
  "py_get (JObj kvs) k d = Inr (case map_of kvs k of None \<Rightarrow> d | Some v \<Rightarrow> v)"
| "py_get _ k d = Inl AttributeError"

text \<open>\<^verbatim>\<open>x[i]\<close> for a literal index \<^verbatim>\<open>0\<close> or \<^verbatim>\<open>1\<close>.\<close>

fun py_subscript :: "json \<Rightarrow> nat \<Rightarrow> py_error + json" where
  "py_subscript (JArr xs) i = (if i < length xs then Inr (xs ! i) else Inl IndexError)"
| "py_subscript (JStr s) i = (if i < length s then Inr (JStr [s ! i]) else Inl IndexError)"
| "py_subscript (JObj kvs) i = Inl KeyError"
| "py_subscript _ i = Inl TypeError"

text \<open>\<^verbatim>\<open>len(x)\<close>.\<close>

fun py_len :: "json \<Rightarrow> py_error + nat" where
  "py_len (JArr xs) = Inr (length xs)"
| "py_len (JStr s) = Inr (length s)"
| "py_len (JObj kvs) = Inr (length kvs)"
| "py_len _ = Inl TypeError"

text \<open>\<^verbatim>\<open>for v in x\<close>: the elements of a list, the characters of a string, the keys of a
  dictionary; anything else is not iterable.\<close>

fun py_iter :: "json \<Rightarrow> py_error + json list" where
  "py_iter (JArr xs) = Inr xs"
| "py_iter (JStr s) = Inr (map (\<lambda>c. JStr [c]) s)"
| "py_iter (JObj kvs) = Inr (map (\<lambda>kv. JStr (fst kv)) kvs)"
| "py_iter _ = Inl TypeError"

text \<open>The numeric value of an operand of \<^verbatim>\<open>+\<close>; a boolean counts as 0 or 1.\<close>

fun py_num :: "json \<Rightarrow> rat option" where
  "py_num (JBool b) = Some (if b then 1 else 0)"
| "py_num (JInt i) = Some (of_int i)"
| "py_num (JFloat r) = Some r"
| "py_num _ = None"

text \<open>
  Hashing and equality of dictionary and set keys. Lists and dictionaries are
  unhashable (\<^verbatim>\<open>TypeError\<close>). Numbers and booleans that compare equal are the same key
  (\<^verbatim>\<open>1 == 1.0 == True\<close>), so a hashable value is represented by a canonical key.
\<close>

datatype hkey = KNone | KNum rat | KStr string

fun py_key :: "json \<Rightarrow> hkey option" where
  "py_key JNull = Some KNone"
| "py_key (JBool b) = Some (KNum (if b then 1 else 0))"
| "py_key (JInt i) = Some (KNum (of_int i))"
| "py_key (JFloat r) = Some (KNum r)"
| "py_key (JStr s) = Some (KStr s)"
| "py_key (JArr xs) = None"
| "py_key (JObj kvs) = None"


section \<open>The record normalizer: \<^verbatim>\<open>extract_permit_data\<close>\<close>

text \<open>The module constant \<^verbatim>\<open>PERMIT_TYPES\<close>, a dictionary with the integer keys 0 to 3.
  The last label is \<^verbatim>\<open>F\<close>, o with diaeresis (two UTF-8 bytes), \<^verbatim>\<open>rhandsbesked\<close>.\<close>

definition PERMIT_TYPES :: "(hkey \<times> json) list" where
  "PERMIT_TYPES =
     [(KNum 0, JStr ''Bygglov''),
      (KNum 1, JStr ''Rivningslov''),
      (KNum 2, JStr ''Marklov''),
      (KNum 3, JStr (''F'' @ [CHR 0xC3, CHR 0xB6] @ ''rhandsbesked''))]"

text \<open>\<^verbatim>\<open>PERMIT_TYPES.get(typ_num, 'Unknown')\<close>: the key is hashed first.\<close>

definition permit_type_label :: "json \<Rightarrow> py_error + json" where
  "permit_type_label typ_num =
     (case py_key typ_num of
        None \<Rightarrow> Inl TypeError
      | Some k \<Rightarrow> Inr (case map_of PERMIT_TYPES k of None \<Rightarrow> JStr ''Unknown'' | Some l \<Rightarrow> l))"

text \<open>\<^verbatim>\<open>sum(v[k] for v in vertices)\<close>: the generator yields \<^verbatim>\<open>v[k]\<close> for one vertex and
  the running total (starting at 0) adds it before the next vertex is read.\<close>

fun sum_coord :: "nat \<Rightarrow> json list \<Rightarrow> rat \<Rightarrow> py_error + rat" where
  "sum_coord k [] acc = Inr acc"
| "sum_coord k (v # vs) acc =
     (case py_subscript v k of
        Inl e \<Rightarrow> Inl e
      | Inr x \<Rightarrow>
          (case py_num x of
             None \<Rightarrow> Inl TypeError
           | Some r \<Rightarrow> sum_coord k vs (acc + r)))"

text \<open>\<^verbatim>\<open>sum(v[k] for v in vertices) / len(vertices)\<close>; true division yields a float.
  It is only reached with a truthy \<^verbatim>\<open>vertices\<close>, so the length is not zero.\<close>

definition mean_coord :: "nat \<Rightarrow> json \<Rightarrow> py_error + json" where
  "mean_coord k vertices =
     (case py_iter vertices of
        Inl e \<Rightarrow> Inl e
      | Inr vs \<Rightarrow>
          (case sum_coord k vs 0 of
             Inl e \<Rightarrow> Inl e
           | Inr s \<Rightarrow>
               (case py_len vertices of
                  Inl e \<Rightarrow> Inl e
                | Inr n \<Rightarrow> Inr (JFloat (s / of_nat n)))))"

text \<open>Lines 276 to 289: the pair \<^verbatim>\<open>(lon, lat)\<close> from the geometry object.\<close>

definition geometry_lon_lat :: "json \<Rightarrow> py_error + (json \<times> json)" where
  "geometry_lon_lat geometry =
     (case py_get geometry ''coordinates'' (JArr []) of
        Inl e \<Rightarrow> Inl e
      | Inr coords \<Rightarrow>
          (case py_get geometry ''type'' JNull of
             Inl e \<Rightarrow> Inl e
           | Inr ty \<Rightarrow>
               if ty = JStr ''Polygon'' \<and> truthy coords then
                 (case py_subscript coords 0 of
                    Inl e \<Rightarrow> Inl e
                  | Inr vertices \<Rightarrow>
                      if truthy vertices then
                        (case mean_coord 0 vertices of
                           Inl e \<Rightarrow> Inl e
                         | Inr lon \<Rightarrow>
                             (case mean_coord 1 vertices of
                                Inl e \<Rightarrow> Inl e
                              | Inr lat \<Rightarrow> Inr (lon, lat)))
                      else Inr (JNull, JNull))
               else if ty = JStr ''Point'' then
                 (case py_len coords of
                    Inl e \<Rightarrow> Inl e
                  | Inr n \<Rightarrow>
                      if n \<ge> 2 then
                        (case py_subscript coords 0 of
                           Inl e \<Rightarrow> Inl e
                         | Inr lon \<Rightarrow>
                             (case py_subscript coords 1 of
                                Inl e \<Rightarrow> Inl e
                              | Inr lat \<Rightarrow> Inr (lon, lat)))
                      else Inr (JNull, JNull))
               else Inr (JNull, JNull)))"

text \<open>The flat row returned by \<^verbatim>\<open>extract_permit_data\<close>: a dictionary with these nine
  keys, in this order.\<close>

record normalized_record =
  permit_id :: json
  property_name :: json
  municipal_case_id :: json
  publication_date :: json
  municipality :: json
  permit_type_num :: json
  permit_type :: json
  longitude :: json
  latitude :: json

definition extract_permit_data :: "json \<Rightarrow> py_error + normalized_record" where
  "extract_permit_data permit =
     (case py_get permit ''properties'' (JObj []) of
        Inl e \<Rightarrow> Inl e
      | Inr properties \<Rightarrow>
     (case py_get permit ''geometry'' (JObj []) of
        Inl e \<Rightarrow> Inl e
      | Inr geometry \<Rightarrow>
     (case geometry_lon_lat geometry of
        Inl e \<Rightarrow> Inl e
      | Inr (lon, lat) \<Rightarrow>
     (case py_get properties ''typ_num'' (JInt (-1)) of
        Inl e \<Rightarrow> Inl e
      | Inr typ_num \<Rightarrow>
     (case py_get properties ''id'' (JStr '''') of
        Inl e \<Rightarrow> Inl e
      | Inr pid \<Rightarrow>
     (case py_get properties ''fastighet'' (JStr '''') of
        Inl e \<Rightarrow> Inl e
      | Inr fastighet \<Rightarrow>
     (case py_get properties ''kun_id'' (JStr '''') of
        Inl e \<Rightarrow> Inl e
      | Inr kun_id \<Rightarrow>
     (case py_get properties ''pubdate'' (JStr '''') of
        Inl e \<Rightarrow> Inl e
      | Inr pubdate \<Rightarrow>
     (case py_get properties ''subtext'' (JStr '''') of
        Inl e \<Rightarrow> Inl e
      | Inr subtext \<Rightarrow>
     (case permit_type_label typ_num of
        Inl e \<Rightarrow> Inl e
      | Inr label \<Rightarrow>
          Inr \<lparr> permit_id = pid,
                property_name = fastighet,
                municipal_case_id = kun_id,
                publication_date = pubdate,
                municipality = subtext,
                permit_type_num = typ_num,
                permit_type = label,
                longitude = lon,
                latitude = lat \<rparr>))))))))))"


section \<open>The writer: \<^verbatim>\<open>save_to_csv\<close>\<close>

text \<open>The list comprehension \<^verbatim>\<open>[self.extract_permit_data(p) for p in permits]\<close>: the
  first record whose extraction raises ends it.\<close>

fun clean_permits :: "json list \<Rightarrow> py_error + normalized_record list" where
  "clean_permits [] = Inr []"
| "clean_permits (p # ps) =
     (case extract_permit_data p of
        Inl e \<Rightarrow> Inl e
      | Inr c \<Rightarrow>
          (case clean_permits ps of
             Inl e \<Rightarrow> Inl e
           | Inr cs \<Rightarrow> Inr (c # cs)))"

text \<open>Lines 313 to 319, the loop over \<^verbatim>\<open>cleaned_permits\<close> with its two variables
  \<^verbatim>\<open>seen_ids\<close> (a set) and \<^verbatim>\<open>unique_permits\<close> (a list); the membership test hashes the
  identifier.\<close>

fun dedup_loop ::
  "normalized_record list \<Rightarrow> hkey set \<Rightarrow> normalized_record list \<Rightarrow>
   py_error + normalized_record list" where
  "dedup_loop [] seen_ids unique_permits = Inr unique_permits"
| "dedup_loop (p # ps) seen_ids unique_permits =
     (case py_key (permit_id p) of
        None \<Rightarrow> Inl TypeError
      | Some k \<Rightarrow>
          if k \<notin> seen_ids
          then dedup_loop ps (insert k seen_ids) (unique_permits @ [p])
          else dedup_loop ps seen_ids unique_permits)"

text \<open>A written file: the header line and the data rows. The file system maps a path
  to its file.\<close>

record csv_file =
  header :: "string list"
  rows :: "normalized_record list"

type_synonym filesystem = "string \<rightharpoonup> csv_file"

text \<open>\<^verbatim>\<open>unique_permits[0].keys()\<close>: the keys of a row, in insertion order.\<close>

definition fieldnames :: "string list" where
  "fieldnames =
     [''permit_id'', ''property_name'', ''municipal_case_id'', ''publication_date'',
      ''municipality'', ''permit_type_num'', ''permit_type'', ''longitude'', ''latitude'']"

text \<open>
  \<^verbatim>\<open>save_to_csv(permits, output_file)\<close> returns \<^verbatim>\<open>None\<close> or raises; its effect is on the
  file system. The result is the file system afterwards and the exception raised, if
  any. \<^verbatim>\<open>open(output_file, 'w')\<close> is taken to succeed; it creates the file empty before
  the header is computed.
\<close>

definition save_to_csv ::
  "json list \<Rightarrow> string \<Rightarrow> filesystem \<Rightarrow> filesystem \<times> py_error option" where
  "save_to_csv permits output_file fs =
     (if permits = [] then (fs, None)
      else
        (case clean_permits permits of
           Inl e \<Rightarrow> (fs, Some e)
         | Inr cleaned_permits \<Rightarrow>
             (case dedup_loop cleaned_permits {} [] of
                Inl e \<Rightarrow> (fs, Some e)
              | Inr unique_permits \<Rightarrow>
                  (case unique_permits of
                     [] \<Rightarrow> (fs(output_file \<mapsto> \<lparr> header = [], rows = [] \<rparr>), Some IndexError)
                   | u # us \<Rightarrow>
                       (fs(output_file \<mapsto> \<lparr> header = fieldnames, rows = unique_permits \<rparr>),
                        None)))))"


section \<open>The HTTP layer: \<^verbatim>\<open>get_locations\<close> and \<^verbatim>\<open>get_permit_details\<close>\<close>

text \<open>
  What one request can end in: \<^verbatim>\<open>session.get\<close> raises a \<^verbatim>\<open>RequestException\<close>
  (timeout, refused connection, DNS), \<^verbatim>\<open>raise_for_status\<close> raises for an error
  status (an \<^verbatim>\<open>HTTPError\<close>, which is a \<^verbatim>\<open>RequestException\<close>),
  \<^verbatim>\<open>response.json()\<close> raises a \<^verbatim>\<open>JSONDecodeError\<close>, or the body decodes to a value.
\<close>

datatype http_outcome =
    TransportFailure
  | StatusFailure
  | DecodeFailure
  | JsonBody json

datatype request =
    GetLocations rat rat rat rat int "int list"
  | GetDetails json

text \<open>
  The remote service answers the \<open>n\<close>-th request of a run; nothing is assumed about
  it. The scraper's state, as far as these functions go, is the list of requests sent
  so far. (The rate limiter, which every request passes first, is modelled on its own
  below; it does not change what is requested or returned.)
\<close>

type_synonym server = "nat \<Rightarrow> request \<Rightarrow> http_outcome"

definition get_locations ::
  "server \<Rightarrow> rat \<Rightarrow> rat \<Rightarrow> rat \<Rightarrow> rat \<Rightarrow> int \<Rightarrow> int list \<Rightarrow> request list \<Rightarrow>
   (py_error + json) \<times> request list" where
  "get_locations srv lat_min lat_max lon_min lon_max window types sent =
     (let req = GetLocations lat_min lat_max lon_min lon_max window types;
          sent' = sent @ [req]
      in case srv (length sent) req of
           TransportFailure \<Rightarrow> (Inr (JArr []), sent')
         | StatusFailure \<Rightarrow> (Inr (JArr []), sent')
         | DecodeFailure \<Rightarrow> (Inr (JArr []), sent')
         | JsonBody data \<Rightarrow>
             (case py_get data ''count'' (JInt 0) of
                Inl e \<Rightarrow> (Inl e, sent')
              | Inr count \<Rightarrow>
                  (case py_get data ''data'' (JObj []) of
                     Inl e \<Rightarrow> (Inl e, sent')
                   | Inr d \<Rightarrow>
                       (case py_get d ''features'' (JArr []) of
                          Inl e \<Rightarrow> (Inl e, sent')
                        | Inr features \<Rightarrow>
                            (case py_len features of
                               Inl e \<Rightarrow> (Inl e, sent')
                             | Inr n \<Rightarrow> (Inr features, sent'))))))"

definition get_permit_details ::
  "server \<Rightarrow> json \<Rightarrow> request list \<Rightarrow> (py_error + json) \<times> request list" where
  "get_permit_details srv pid sent =
     (let req = GetDetails pid;
          sent' = sent @ [req]
      in case srv (length sent) req of
           TransportFailure \<Rightarrow> (Inr (JObj []), sent')
         | StatusFailure \<Rightarrow> (Inr (JObj []), sent')
         | DecodeFailure \<Rightarrow> (Inr (JObj []), sent')
         | JsonBody v \<Rightarrow> (Inr v, sent'))"


section \<open>One bounding box: \<^verbatim>\<open>scrape_bounding_box\<close>\<close>

text \<open>Lines 187 to 197, the loop over the location markers with its variable
  \<^verbatim>\<open>detailed_permits\<close>. The counter \<^verbatim>\<open>i\<close> is used for a log line only.\<close>

text \<open>Line 188: \<^verbatim>\<open>location.get('properties', {}).get('id')\<close>.\<close>

definition marker_id :: "json \<Rightarrow> py_error + json" where
  "marker_id location =
     (case py_get location ''properties'' (JObj []) of
        Inl e \<Rightarrow> Inl e
      | Inr props \<Rightarrow> py_get props ''id'' JNull)"

fun details_loop ::
  "server \<Rightarrow> json list \<Rightarrow> json list \<Rightarrow> request list \<Rightarrow>
   (py_error + json list) \<times> request list" where
  "details_loop srv [] detailed_permits sent = (Inr detailed_permits, sent)"
| "details_loop srv (location # rest) detailed_permits sent =
     (case marker_id location of
        Inl e \<Rightarrow> (Inl e, sent)
      | Inr pid \<Rightarrow>
          if \<not> truthy pid then details_loop srv rest detailed_permits sent
          else
            (case get_permit_details srv pid sent of
               (Inl e, sent') \<Rightarrow> (Inl e, sent')
             | (Inr details, sent') \<Rightarrow>
                 if truthy details
                 then details_loop srv rest (detailed_permits @ [details]) sent'
                 else details_loop srv rest detailed_permits sent'))"

definition scrape_bounding_box ::
  "server \<Rightarrow> rat \<Rightarrow> rat \<Rightarrow> rat \<Rightarrow> rat \<Rightarrow> int \<Rightarrow> int list \<Rightarrow> bool \<Rightarrow> request list \<Rightarrow>
   (py_error + json) \<times> request list" where
  "scrape_bounding_box srv lat_min lat_max lon_min lon_max window types fetch_details sent =
     (case get_locations srv lat_min lat_max lon_min lon_max window types sent of
        (Inl e, sent') \<Rightarrow> (Inl e, sent')
      | (Inr locations, sent') \<Rightarrow>
          if \<not> truthy locations then (Inr (JArr []), sent')
          else if \<not> fetch_details then (Inr locations, sent')
          else
            (case py_iter locations of
               Inl e \<Rightarrow> (Inl e, sent')
             | Inr markers \<Rightarrow>
                 (case details_loop srv markers [] sent' of
                    (Inl e, sent'') \<Rightarrow> (Inl e, sent'')
                  | (Inr detailed_permits, sent'') \<Rightarrow> (Inr (JArr detailed_permits), sent''))))"


section \<open>The grid: \<^verbatim>\<open>scrape_sweden\<close> and \<^verbatim>\<open>scrape_stockholm_complete\<close>\<close>

record bbox =
  lat_min :: rat
  lat_max :: rat
  lon_min :: rat
  lon_max :: rat

text \<open>
  Both functions run the same two nested \<^verbatim>\<open>while\<close> loops over \<^verbatim>\<open>lat\<close> and \<^verbatim>\<open>lon\<close>.
  The loop body hands the cell \<^verbatim>\<open>(lat, lat_max, lon, lon_max)\<close> to
  \<^verbatim>\<open>scrape_bounding_box\<close> and assigns to neither loop variable, so the cells follow
  from the loop control alone; the model keeps the sequence of cells the loops hand
  out when no call raises. A loop that never leaves is the value \<open>None\<close>.
\<close>

partial_function (option) lon_loop :: "bbox \<Rightarrow> rat \<Rightarrow> rat \<Rightarrow> rat \<Rightarrow> bbox list option" where
  "lon_loop b grid_size lat lon =
     (if lon < lon_max b then
        Option.bind (lon_loop b grid_size lat (lon + grid_size))
          (\<lambda>cells. Some (\<lparr> lat_min = lat,
                             lat_max = min (lat + grid_size) (lat_max b),
                             lon_min = lon,
                             lon_max = min (lon + grid_size) (lon_max b) \<rparr> # cells))
      else Some [])"

partial_function (option) lat_loop :: "bbox \<Rightarrow> rat \<Rightarrow> rat \<Rightarrow> bbox list option" where
  "lat_loop b grid_size lat =
     (if lat < lat_max b then
        Option.bind (lon_loop b grid_size lat (lon_min b))
          (\<lambda>row. Option.bind (lat_loop b grid_size (lat + grid_size))
             (\<lambda>cells. Some (row @ cells)))
      else Some [])"

declare lon_loop.simps [code]
declare lat_loop.simps [code]

text \<open>The loops start at \<^verbatim>\<open>lat = bbox['lat_min']\<close>.\<close>

definition grid_cells :: "bbox \<Rightarrow> rat \<Rightarrow> bbox list option" where
  "grid_cells b grid_size = lat_loop b grid_size (lat_min b)"

definition sweden_bbox :: bbox where
  "sweden_bbox = \<lparr> lat_min = 55, lat_max = 69, lon_min = 21 / 2, lon_max = 49 / 2 \<rparr>"

definition scrape_sweden_cells :: "rat \<Rightarrow> bbox list option" where
  "scrape_sweden_cells grid_size = grid_cells sweden_bbox grid_size"

definition stockholm_bbox :: bbox where
  "stockholm_bbox = \<lparr> lat_min = 296 / 5, lat_max = 119 / 2, lon_min = 89 / 5, lon_max = 91 / 5 \<rparr>"

definition scrape_stockholm_cells :: "bbox list option" where
  "scrape_stockholm_cells = grid_cells stockholm_bbox (1 / 10)"



section \<open>The rate limiter: \<^verbatim>\<open>_rate_limit_wait\<close>\<close>

text \<open>
  The limiter's fields of the scraper object, and the wall clock it reads.
  \<^verbatim>\<open>time.time()\<close> returns the clock; \<^verbatim>\<open>time.sleep(d)\<close> suspends for \<open>d\<close> seconds and
  for whatever the scheduler adds (the parameter \<open>oversleep\<close>); the statements in
  between take no time.
\<close>

record limiter =
  rate_limit :: rat
  last_request_time :: rat

definition init_limiter :: "rat \<Rightarrow> limiter" where
  "init_limiter rate_limit_seconds = \<lparr> rate_limit = rate_limit_seconds, last_request_time = 0 \<rparr>"

definition time_sleep :: "rat \<Rightarrow> rat \<Rightarrow> rat \<Rightarrow> rat" where
  "time_sleep oversleep d now = now + d + oversleep"

definition rate_limit_wait :: "rat \<Rightarrow> limiter \<times> rat \<Rightarrow> limiter \<times> rat" where
  "rate_limit_wait oversleep st =
     (let self = fst st; now = snd st;
          elapsed = now - last_request_time self;
          now' = (if elapsed < rate_limit self
                  then time_sleep oversleep (rate_limit self - elapsed) now
                  else now)
      in (self\<lparr> last_request_time := now' \<rparr>, now'))"

text \<open>
  A run of calls through the limiter: each call waits, then its request begins (at the
  clock value the wait stored) and takes \<open>duration\<close> seconds. A call is given by the
  pair \<open>(oversleep, duration)\<close>; the result lists the times at which the requests began.
\<close>

fun issue_calls :: "(rat \<times> rat) list \<Rightarrow> limiter \<times> rat \<Rightarrow> rat list" where
  "issue_calls [] st = []"
| "issue_calls ((oversleep, duration) # calls) st =
     (case rate_limit_wait oversleep st of
        (self, began) \<Rightarrow> began # issue_calls calls (self, began + duration))"


section \<open>Notions used to state the properties\<close>




text \<open>The key under which the writer's set holds a row: two rows have the same
  \<^verbatim>\<open>permit_id\<close>, in Python's sense, when their keys are equal.\<close>

definition record_key :: "normalized_record \<Rightarrow> hkey option" where
  "record_key p = py_key (permit_id p)"

text \<open>Successive times are at least \<open>T\<close> apart.\<close>

fun spaced :: "rat \<Rightarrow> rat list \<Rightarrow> bool" where
  "spaced T (a # b # ts) = (a + T \<le> b \<and> spaced T (b # ts))"
| "spaced T ts = True"


section \<open>Sample data for the concrete instances\<close>

definition sample_permit :: "(string \<times> json) list \<Rightarrow> json" where
  "sample_permit props = JObj [(''properties'', JObj props)]"

definition sample_row :: "json \<Rightarrow> json \<Rightarrow> normalized_record" where
  "sample_row pid kun_id =
     \<lparr> permit_id = pid,
       property_name = JStr '''',
       municipal_case_id = kun_id,
       publication_date = JStr '''',
       municipality = JStr '''',
       permit_type_num = JInt (- 1),
       permit_type = JStr ''Unknown'',
       longitude = JNull,
       latitude = JNull \<rparr>"

definition sample_permits :: "json list" where
  "sample_permits =
     [sample_permit [(''id'', JInt 7), (''kun_id'', JStr ''a'')],
      sample_permit [(''id'', JInt 7), (''kun_id'', JStr ''b'')],
      sample_permit [(''id'', JInt 8), (''kun_id'', JStr ''c'')]]"

definition sample_rows :: "normalized_record list" where
  "sample_rows =
     [sample_row (JInt 7) (JStr ''a''),
      sample_row (JInt 7) (JStr ''b''),
      sample_row (JInt 8) (JStr ''c'')]"

definition permits_without_id :: "json list" where
  "permits_without_id =
     [sample_permit [(''kun_id'', JStr ''a'')],
      sample_permit [(''id'', JInt 8)],
      sample_permit [(''kun_id'', JStr ''b'')]]"

definition rows_without_id :: "normalized_record list" where
  "rows_without_id =
     [sample_row (JStr '''') (JStr ''a''),
      sample_row (JInt 8) (JStr ''''),
      sample_row (JStr '''') (JStr ''b'')]"




definition sample_marker :: "json \<Rightarrow> json" where
  "sample_marker pid = JObj [(''properties'', JObj [(''id'', pid)])]"

definition sample_server :: server where
  "sample_server n q =
     (case q of
        GetLocations a b c d w tys \<Rightarrow>
          JsonBody (JObj [(''count'', JInt 2),
                          (''data'', JObj [(''features'',
                             JArr [sample_marker (JInt 0), sample_marker (JInt 5)])])])
      | GetDetails pid \<Rightarrow> JsonBody (sample_marker pid))"


section \<open>Properties of the normalizer\<close>

lemma extract_permit_data_ok:
  assumes "py_get permit ''properties'' (JObj []) = Inr (JObj props)"
      and "py_get permit ''geometry'' (JObj []) = Inr g"
      and "geometry_lon_lat g = Inr (lon, lat)"
      and "permit_type_label (case map_of props ''typ_num'' of None \<Rightarrow> JInt (- 1) | Some v \<Rightarrow> v)
             = Inr label"
  shows "extract_permit_data permit =
           Inr \<lparr> permit_id = (case map_of props ''id'' of None \<Rightarrow> JStr '''' | Some v \<Rightarrow> v),
                 property_name = (case map_of props ''fastighet'' of None \<Rightarrow> JStr '''' | Some v \<Rightarrow> v),
                 municipal_case_id = (case map_of props ''kun_id'' of None \<Rightarrow> JStr '''' | Some v \<Rightarrow> v),
                 publication_date = (case map_of props ''pubdate'' of None \<Rightarrow> JStr '''' | Some v \<Rightarrow> v),
                 municipality = (case map_of props ''subtext'' of None \<Rightarrow> JStr '''' | Some v \<Rightarrow> v),
                 permit_type_num = (case map_of props ''typ_num'' of None \<Rightarrow> JInt (- 1) | Some v \<Rightarrow> v),
                 permit_type = label,
                 longitude = lon,
                 latitude = lat \<rparr>"
  using assms by (simp add: extract_permit_data_def)

lemma permit_type_label_int:
  "permit_type_label (JInt n) =
     Inr (JStr (if n = 0 then ''Bygglov''
                else if n = 1 then ''Rivningslov''
                else if n = 2 then ''Marklov''
                else if n = 3 then ''F'' @ [CHR 0xC3, CHR 0xB6] @ ''rhandsbesked''
                else ''Unknown''))"
  by (simp add: permit_type_label_def PERMIT_TYPES_def)





text \<open>
  Claim C3. The claim reads: the normalizer is total; for every raw record, also one
  whose geometry or properties are missing, it returns a row without raising, with
  null coordinates for a missing or unrecognised geometry. The code raises instead on
  a feature whose \<^verbatim>\<open>geometry\<close> member is \<^verbatim>\<open>null\<close> (the default of \<^verbatim>\<open>get\<close> applies to an
  absent key only), and on a polygon one of whose vertices has a single coordinate,
  although a point with a single coordinate is given null coordinates.
\<close>

theorem extract_permit_data_raises:
  "extract_permit_data (JObj [(''properties'', JObj [(''id'', JInt 7)]), (''geometry'', JNull)])
     = Inl AttributeError
   \<and> extract_permit_data
       (JObj [(''properties'', JObj [(''id'', JInt 7)]),
              (''geometry'', JObj [(''type'', JStr ''Polygon''),
                                   (''coordinates'', JArr [JArr [JArr [JInt 18]]])])])
     = Inl IndexError
   \<and> geometry_lon_lat (JObj [(''type'', JStr ''Point''), (''coordinates'', JArr [JInt 18])])
     = Inr (JNull, JNull)"
  by (simp add: extract_permit_data_def geometry_lon_lat_def mean_coord_def)



text \<open>
  Claim C8. The normalizer maps the permit type code through the fixed table: 0 to
  Bygglov, 1 to Rivningslov, 2 to Marklov, 3 to Foerhandsbesked (written with o with diaeresis), any other integer to
  Unknown; when \<^verbatim>\<open>typ_num\<close> is absent the code is -1 and the label Unknown. (The
  record's properties are a dictionary and its geometry is one the normalizer
  accepts.)
\<close>

theorem permit_type_mapping:
  assumes "py_get permit ''properties'' (JObj []) = Inr (JObj props)"
      and "py_get permit ''geometry'' (JObj []) = Inr g"
      and "geometry_lon_lat g = Inr ll"
  shows "(map_of props ''typ_num'' = None \<longrightarrow>
            (\<exists>r. extract_permit_data permit = Inr r
               \<and> permit_type_num r = JInt (- 1) \<and> permit_type r = JStr ''Unknown''))
       \<and> (\<forall>n. map_of props ''typ_num'' = Some (JInt n) \<longrightarrow>
            (\<exists>r. extract_permit_data permit = Inr r
               \<and> permit_type_num r = JInt n
               \<and> permit_type r =
                   JStr (if n = 0 then ''Bygglov''
                         else if n = 1 then ''Rivningslov''
                         else if n = 2 then ''Marklov''
                         else if n = 3 then ''F'' @ [CHR 0xC3, CHR 0xB6] @ ''rhandsbesked''
                         else ''Unknown'')))"
proof -
  obtain lon lat where ll: "geometry_lon_lat g = Inr (lon, lat)"
    using assms(3) by (cases ll) simp
  show ?thesis
  proof (intro conjI impI allI)
    assume a: "map_of props ''typ_num'' = None"
    have "permit_type_label (case map_of props ''typ_num'' of None \<Rightarrow> JInt (- 1) | Some v \<Rightarrow> v)
            = Inr (JStr ''Unknown'')"
      using a by (simp add: permit_type_label_int)
    from extract_permit_data_ok[OF assms(1,2) ll this] a
    show "\<exists>r. extract_permit_data permit = Inr r
               \<and> permit_type_num r = JInt (- 1) \<and> permit_type r = JStr ''Unknown''"
      by simp
  next
    fix n :: int
    let ?l = "JStr (if n = 0 then ''Bygglov''
                         else if n = 1 then ''Rivningslov''
                         else if n = 2 then ''Marklov''
                         else if n = 3 then ''F'' @ [CHR 0xC3, CHR 0xB6] @ ''rhandsbesked''
                         else ''Unknown'')"
    assume a: "map_of props ''typ_num'' = Some (JInt n)"
    have "permit_type_label (case map_of props ''typ_num'' of None \<Rightarrow> JInt (- 1) | Some v \<Rightarrow> v)
            = Inr ?l"
      using a by (simp only: option.case permit_type_label_int)
    from extract_permit_data_ok[OF assms(1,2) ll this] a
    show "\<exists>r. extract_permit_data permit = Inr r \<and> permit_type_num r = JInt n \<and> permit_type r = ?l"
      by simp
  qed
qed

text \<open>Code 3, code 99 and an absent code.\<close>

theorem permit_type_mapping_witness:
  "(\<exists>r. extract_permit_data (sample_permit [(''typ_num'', JInt 3)]) = Inr r
      \<and> permit_type_num r = JInt 3
      \<and> permit_type r = JStr (''F'' @ [CHR 0xC3, CHR 0xB6] @ ''rhandsbesked''))
   \<and> (\<exists>r. extract_permit_data (sample_permit [(''typ_num'', JInt 99)]) = Inr r
      \<and> permit_type_num r = JInt 99 \<and> permit_type r = JStr ''Unknown'')
   \<and> (\<exists>r. extract_permit_data (sample_permit []) = Inr r
      \<and> permit_type_num r = JInt (- 1) \<and> permit_type r = JStr ''Unknown'')"
proof -
  have p: "py_get (sample_permit props) ''properties'' (JObj []) = Inr (JObj props)" for props
    by (simp add: sample_permit_def)
  have g: "py_get (sample_permit props) ''geometry'' (JObj []) = Inr (JObj [])" for props
    by (simp add: sample_permit_def)
  have ll: "geometry_lon_lat (JObj []) = Inr (JNull, JNull)"
    by (simp add: geometry_lon_lat_def)
  from permit_type_mapping[OF p g ll, of "[(''typ_num'', JInt 3)]"]
  have "\<exists>r. extract_permit_data (sample_permit [(''typ_num'', JInt 3)]) = Inr r
      \<and> permit_type_num r = JInt 3
      \<and> permit_type r = JStr (''F'' @ [CHR 0xC3, CHR 0xB6] @ ''rhandsbesked'')"
    by simp
  moreover from permit_type_mapping[OF p g ll, of "[(''typ_num'', JInt 99)]"]
  have "\<exists>r. extract_permit_data (sample_permit [(''typ_num'', JInt 99)]) = Inr r
      \<and> permit_type_num r = JInt 99 \<and> permit_type r = JStr ''Unknown''"
    by simp
  moreover from permit_type_mapping[OF p g ll, of "[]"]
  have "\<exists>r. extract_permit_data (sample_permit []) = Inr r
      \<and> permit_type_num r = JInt (- 1) \<and> permit_type r = JStr ''Unknown''"
    by simp
  ultimately show ?thesis by blast
qed


section \<open>Properties of the writer\<close>

lemma clean_permits_length:
  "clean_permits permits = Inr cleaned \<Longrightarrow> length cleaned = length permits"
  by (induction permits arbitrary: cleaned) (auto split: sum.splits)

lemma py_key_empty_string: "py_key x = Some (KStr s) \<longleftrightarrow> x = JStr s"
  by (cases x) auto

lemma record_key_empty_string:
  "permit_id c = JStr '''' \<Longrightarrow> record_key r = record_key c \<longleftrightarrow> permit_id r = JStr ''''"
  by (simp add: record_key_def py_key_empty_string)

text \<open>What the loop leaves in \<^verbatim>\<open>unique_permits\<close>, for any starting values of its two
  variables.\<close>

lemma dedup_loop_result:
  assumes "list_all (\<lambda>p. record_key p \<noteq> None) ps"
  shows "\<exists>out. dedup_loop ps seen uniq = Inr (uniq @ out)
            \<and> subseq out ps
            \<and> distinct (map record_key out)
            \<and> (\<forall>r\<in>set out. record_key r \<notin> Some ` seen)
            \<and> (\<forall>c\<in>set ps. record_key c \<notin> Some ` seen \<longrightarrow>
                  (\<exists>x. find (\<lambda>r. record_key r = record_key c) ps = Some x
                     \<and> filter (\<lambda>r. record_key r = record_key c) out = [x]))"
  using assms
proof (induction ps arbitrary: seen uniq)
  case Nil
  then show ?case by simp
next
  case (Cons p ps)
  from Cons.prems obtain k where k: "py_key (permit_id p) = Some k" and rk: "record_key p = Some k"
    and rest: "list_all (\<lambda>p. record_key p \<noteq> None) ps"
    by (auto simp: record_key_def)
  show ?case
  proof (cases "k \<in> seen")
    case True
    from Cons.IH[OF rest, of seen uniq] obtain out where o:
      "dedup_loop ps seen uniq = Inr (uniq @ out)" "subseq out ps"
      "distinct (map record_key out)" "\<forall>r\<in>set out. record_key r \<notin> Some ` seen"
      "\<forall>c\<in>set ps. record_key c \<notin> Some ` seen \<longrightarrow>
          (\<exists>x. find (\<lambda>r. record_key r = record_key c) ps = Some x
             \<and> filter (\<lambda>r. record_key r = record_key c) out = [x])"
      by blast
    have 1: "dedup_loop (p # ps) seen uniq = Inr (uniq @ out)" using k True o(1) by simp
    have 2: "subseq out (p # ps)" using o(2) by (rule list_emb_Cons)
    have 5: "\<forall>c\<in>set (p # ps). record_key c \<notin> Some ` seen \<longrightarrow>
          (\<exists>x. find (\<lambda>r. record_key r = record_key c) (p # ps) = Some x
             \<and> filter (\<lambda>r. record_key r = record_key c) out = [x])"
    proof (intro ballI impI)
      fix c assume c: "c \<in> set (p # ps)" and n: "record_key c \<notin> Some ` seen"
      from n True rk have ne: "record_key p \<noteq> record_key c" by (metis imageI)
      with c have "c \<in> set ps" by auto
      with o(5) n ne show "\<exists>x. find (\<lambda>r. record_key r = record_key c) (p # ps) = Some x
             \<and> filter (\<lambda>r. record_key r = record_key c) out = [x]" by simp
    qed
    from 1 2 o(3) o(4) 5 show ?thesis by blast
  next
    case False
    from Cons.IH[OF rest, of "insert k seen" "uniq @ [p]"] obtain out where o:
      "dedup_loop ps (insert k seen) (uniq @ [p]) = Inr ((uniq @ [p]) @ out)" "subseq out ps"
      "distinct (map record_key out)" "\<forall>r\<in>set out. record_key r \<notin> Some ` insert k seen"
      "\<forall>c\<in>set ps. record_key c \<notin> Some ` insert k seen \<longrightarrow>
          (\<exists>x. find (\<lambda>r. record_key r = record_key c) ps = Some x
             \<and> filter (\<lambda>r. record_key r = record_key c) out = [x])"
      by blast
    have 1: "dedup_loop (p # ps) seen uniq = Inr (uniq @ (p # out))" using k False o(1) by simp
    have 2: "subseq (p # out) (p # ps)" using o(2) by simp
    have nk: "\<forall>r\<in>set out. record_key r \<noteq> Some k" using o(4) by auto
    have 3: "distinct (map record_key (p # out))" using o(3) nk rk by auto
    have 4: "\<forall>r\<in>set (p # out). record_key r \<notin> Some ` seen" using o(4) rk False by auto
    have 5: "\<forall>c\<in>set (p # ps). record_key c \<notin> Some ` seen \<longrightarrow>
          (\<exists>x. find (\<lambda>r. record_key r = record_key c) (p # ps) = Some x
             \<and> filter (\<lambda>r. record_key r = record_key c) (p # out) = [x])"
    proof (intro ballI impI)
      fix c assume c: "c \<in> set (p # ps)" and n: "record_key c \<notin> Some ` seen"
      show "\<exists>x. find (\<lambda>r. record_key r = record_key c) (p # ps) = Some x
             \<and> filter (\<lambda>r. record_key r = record_key c) (p # out) = [x]"
      proof (cases "record_key p = record_key c")
        case True
        with nk rk have "filter (\<lambda>r. record_key r = record_key c) out = []"
          by (auto simp: filter_empty_conv)
        with True show ?thesis by simp
      next
        case ne: False
        with c have "c \<in> set ps" by auto
        moreover from ne rk n have "record_key c \<notin> Some ` insert k seen" by auto
        ultimately show ?thesis using o(5) ne by simp
      qed
    qed
    from 1 2 3 4 5 show ?thesis by blast
  qed
qed

text \<open>The file written for a non-empty input whose records normalize and whose
  identifiers are hashable.\<close>

lemma save_to_csv_written:
  assumes "permits \<noteq> []"
      and "clean_permits permits = Inr cleaned"
      and "list_all (\<lambda>p. record_key p \<noteq> None) cleaned"
  shows "\<exists>out. save_to_csv permits output_file fs
                  = (fs(output_file \<mapsto> \<lparr> header = fieldnames, rows = out \<rparr>), None)
            \<and> subseq out cleaned
            \<and> distinct (map record_key out)
            \<and> (\<forall>c\<in>set cleaned.
                  \<exists>x. find (\<lambda>r. record_key r = record_key c) cleaned = Some x
                     \<and> filter (\<lambda>r. record_key r = record_key c) out = [x])"
proof -
  from dedup_loop_result[OF assms(3), of "{}" "[]"] obtain out where o:
    "dedup_loop cleaned {} [] = Inr out" "subseq out cleaned" "distinct (map record_key out)"
    "\<forall>c\<in>set cleaned.
        \<exists>x. find (\<lambda>r. record_key r = record_key c) cleaned = Some x
           \<and> filter (\<lambda>r. record_key r = record_key c) out = [x]"
    by auto
  from assms(1,2) have "cleaned \<noteq> []" using clean_permits_length by fastforce
  then obtain c where "c \<in> set cleaned" by (cases cleaned) auto
  with o(4) obtain x where "filter (\<lambda>r. record_key r = record_key c) out = [x]" by blast
  then have "out \<noteq> []" by auto
  then obtain u us where "out = u # us" by (cases out) auto
  with assms(1,2) o(1) have
    "save_to_csv permits output_file fs
       = (fs(output_file \<mapsto> \<lparr> header = fieldnames, rows = out \<rparr>), None)"
    by (simp add: save_to_csv_def)
  with o(2,3,4) show ?thesis by blast
qed

text \<open>
  Claim C1. For an input sequence whose records normalize and whose identifiers are
  hashable, the writer keeps, in input order, exactly the first normalized record of
  each \<^verbatim>\<open>permit_id\<close> and discards the later ones: the rows written are a subsequence
  of the normalized records and, for every normalized record, the file holds exactly
  one row with its \<^verbatim>\<open>permit_id\<close>, which is the first normalized record with that
  \<^verbatim>\<open>permit_id\<close>.
\<close>

theorem save_to_csv_keeps_first_occurrence:
  assumes "permits \<noteq> []"
      and "clean_permits permits = Inr cleaned"
      and "list_all (\<lambda>p. record_key p \<noteq> None) cleaned"
  shows "\<exists>out. save_to_csv permits output_file fs
                  = (fs(output_file \<mapsto> \<lparr> header = fieldnames, rows = out \<rparr>), None)
            \<and> subseq out cleaned
            \<and> (\<forall>c\<in>set cleaned.
                  \<exists>x. find (\<lambda>r. record_key r = record_key c) cleaned = Some x
                     \<and> filter (\<lambda>r. record_key r = record_key c) out = [x])"
  using save_to_csv_written[OF assms] by blast

text \<open>Two records with the identifier 7 and one with the identifier 8: the file holds
  the first and the third.\<close>

theorem save_to_csv_keeps_first_occurrence_witness:
  "\<exists>out. save_to_csv sample_permits ''out.csv'' (map_of [])
            = ((map_of [])(''out.csv'' \<mapsto> \<lparr> header = fieldnames, rows = out \<rparr>), None)
      \<and> subseq out sample_rows
      \<and> (\<forall>c\<in>set sample_rows.
            \<exists>x. find (\<lambda>r. record_key r = record_key c) sample_rows = Some x
               \<and> filter (\<lambda>r. record_key r = record_key c) out = [x])"
proof -
  have 1: "sample_permits \<noteq> []"
    by (simp add: sample_permits_def)
  have 2: "clean_permits sample_permits = Inr sample_rows"
    by (simp add: sample_permits_def sample_rows_def sample_permit_def sample_row_def
        extract_permit_data_def geometry_lon_lat_def permit_type_label_def PERMIT_TYPES_def)
  have 3: "list_all (\<lambda>p. record_key p \<noteq> None) sample_rows"
    by (simp add: sample_rows_def record_key_def sample_row_def)
  from save_to_csv_keeps_first_occurrence[OF 1 2 3] show ?thesis .
qed

lemma save_to_csv_sample:
  "save_to_csv sample_permits ''out.csv'' (map_of [])
   = ((map_of [])(''out.csv'' \<mapsto>
        \<lparr> header = fieldnames,
          rows = [sample_row (JInt 7) (JStr ''a''), sample_row (JInt 8) (JStr ''c'')] \<rparr>),
      None)"
  by (simp add: save_to_csv_def sample_permits_def sample_permit_def sample_row_def
      extract_permit_data_def geometry_lon_lat_def permit_type_label_def PERMIT_TYPES_def)

text \<open>
  Claim C9. All rows the writer writes have pairwise distinct \<^verbatim>\<open>permit_id\<close> values. A
  record whose properties lack \<^verbatim>\<open>id\<close> normalizes to the empty string as its
  \<^verbatim>\<open>permit_id\<close>, so all records without an identifier share one key: the file holds
  at most one row with the empty \<^verbatim>\<open>permit_id\<close>, namely the first normalized record
  that has it, and the other records without an identifier are dropped.
\<close>

theorem save_to_csv_distinct_permit_ids:
  assumes "permits \<noteq> []"
      and "clean_permits permits = Inr cleaned"
      and "list_all (\<lambda>p. record_key p \<noteq> None) cleaned"
  shows "(\<exists>out. save_to_csv permits output_file fs
                  = (fs(output_file \<mapsto> \<lparr> header = fieldnames, rows = out \<rparr>), None)
            \<and> distinct (map record_key out)
            \<and> distinct (map permit_id out)
            \<and> length (filter (\<lambda>r. permit_id r = JStr '''') out) \<le> 1
            \<and> (\<forall>c\<in>set cleaned. permit_id c = JStr '''' \<longrightarrow>
                  (\<exists>x. find (\<lambda>r. permit_id r = JStr '''') cleaned = Some x
                     \<and> filter (\<lambda>r. permit_id r = JStr '''') out = [x])))
       \<and> (\<forall>permit props r.
             extract_permit_data permit = Inr r \<longrightarrow>
             py_get permit ''properties'' (JObj []) = Inr (JObj props) \<longrightarrow>
             map_of props ''id'' = None \<longrightarrow> permit_id r = JStr '''')"
proof -
  from save_to_csv_written[OF assms, of output_file fs] obtain out where o:
    "save_to_csv permits output_file fs
       = (fs(output_file \<mapsto> \<lparr> header = fieldnames, rows = out \<rparr>), None)"
    "subseq out cleaned" "distinct (map record_key out)"
    "\<forall>c\<in>set cleaned.
        \<exists>x. find (\<lambda>r. record_key r = record_key c) cleaned = Some x
           \<and> filter (\<lambda>r. record_key r = record_key c) out = [x]"
    by blast
  have "map record_key out = map py_key (map permit_id out)"
    by (simp add: record_key_def)
  with o(3) have d: "distinct (map permit_id out)"
    by (metis distinct_map)
  have "length (filter (\<lambda>r. permit_id r = x) out) \<le> 1" for x
    using d by (induction out) (auto simp: filter_empty_conv intro: rev_image_eqI)
  then have l: "length (filter (\<lambda>r. permit_id r = JStr '''') out) \<le> 1" .
  have f: "\<forall>c\<in>set cleaned. permit_id c = JStr '''' \<longrightarrow>
             (\<exists>x. find (\<lambda>r. permit_id r = JStr '''') cleaned = Some x
                \<and> filter (\<lambda>r. permit_id r = JStr '''') out = [x])"
  proof (intro ballI impI)
    fix c assume c: "c \<in> set cleaned" "permit_id c = JStr ''''"
    from o(4) c(1) obtain x where
      "find (\<lambda>r. record_key r = record_key c) cleaned = Some x"
      "filter (\<lambda>r. record_key r = record_key c) out = [x]"
      by blast
    then show "\<exists>x. find (\<lambda>r. permit_id r = JStr '''') cleaned = Some x
                \<and> filter (\<lambda>r. permit_id r = JStr '''') out = [x]"
      by (simp add: record_key_empty_string[OF c(2)])
  qed
  have m: "\<forall>permit props r.
             extract_permit_data permit = Inr r \<longrightarrow>
             py_get permit ''properties'' (JObj []) = Inr (JObj props) \<longrightarrow>
             map_of props ''id'' = None \<longrightarrow> permit_id r = JStr ''''"
    by (auto simp: extract_permit_data_def split: sum.splits)
  from o(1,3) d l f m show ?thesis by blast
qed

text \<open>Two records without an identifier around one with the identifier 8: of the two,
  the file holds the first.\<close>

theorem save_to_csv_distinct_permit_ids_witness:
  "(\<exists>out. save_to_csv permits_without_id ''out.csv'' (map_of [])
            = ((map_of [])(''out.csv'' \<mapsto> \<lparr> header = fieldnames, rows = out \<rparr>), None)
      \<and> distinct (map record_key out)
      \<and> distinct (map permit_id out)
      \<and> length (filter (\<lambda>r. permit_id r = JStr '''') out) \<le> 1
      \<and> filter (\<lambda>r. permit_id r = JStr '''') out = [sample_row (JStr '''') (JStr ''a'')])
   \<and> (\<exists>r. extract_permit_data (sample_permit [(''kun_id'', JStr ''a'')]) = Inr r
         \<and> permit_id r = JStr '''')"
proof -
  have 1: "permits_without_id \<noteq> []"
    by (simp add: permits_without_id_def)
  have 2: "clean_permits permits_without_id = Inr rows_without_id"
    by (simp add: permits_without_id_def rows_without_id_def sample_permit_def sample_row_def
        extract_permit_data_def geometry_lon_lat_def permit_type_label_def PERMIT_TYPES_def)
  have 3: "list_all (\<lambda>p. record_key p \<noteq> None) rows_without_id"
    by (simp add: rows_without_id_def record_key_def sample_row_def)
  have 4: "sample_row (JStr '''') (JStr ''a'') \<in> set rows_without_id"
    by (simp add: rows_without_id_def)
  have 5: "permit_id (sample_row (JStr '''') (JStr ''a'')) = JStr ''''"
    by (simp add: sample_row_def)
  have 6: "find (\<lambda>r. permit_id r = JStr '''') rows_without_id
             = Some (sample_row (JStr '''') (JStr ''a''))"
    by (simp add: rows_without_id_def sample_row_def)
  have 7: "extract_permit_data (sample_permit [(''kun_id'', JStr ''a'')])
             = Inr (sample_row (JStr '''') (JStr ''a''))"
    by (simp add: sample_permit_def sample_row_def
        extract_permit_data_def geometry_lon_lat_def permit_type_label_def PERMIT_TYPES_def)
  have 8: "py_get (sample_permit [(''kun_id'', JStr ''a'')]) ''properties'' (JObj [])
             = Inr (JObj [(''kun_id'', JStr ''a'')])"
    by (simp add: sample_permit_def)
  have 9: "map_of [(''kun_id'', JStr ''a'')] ''id'' = None"
    by simp
  note t = save_to_csv_distinct_permit_ids[OF 1 2 3, of "''out.csv''" "map_of []"]
  from t obtain out where o:
    "save_to_csv permits_without_id ''out.csv'' (map_of [])
       = ((map_of [])(''out.csv'' \<mapsto> \<lparr> header = fieldnames, rows = out \<rparr>), None)"
    "distinct (map record_key out)" "distinct (map permit_id out)"
    "length (filter (\<lambda>r. permit_id r = JStr '''') out) \<le> 1"
    "\<forall>c\<in>set rows_without_id. permit_id c = JStr '''' \<longrightarrow>
        (\<exists>x. find (\<lambda>r. permit_id r = JStr '''') rows_without_id = Some x
           \<and> filter (\<lambda>r. permit_id r = JStr '''') out = [x])"
    by blast
  from o(5) 4 5 6 have
    f: "filter (\<lambda>r. permit_id r = JStr '''') out = [sample_row (JStr '''') (JStr ''a'')]"
    by auto
  from t 7 8 9 have
    "permit_id (sample_row (JStr '''') (JStr ''a'')) = JStr ''''"
    by blast
  with 7 have "\<exists>r. extract_permit_data (sample_permit [(''kun_id'', JStr ''a'')]) = Inr r
         \<and> permit_id r = JStr ''''"
    by simp
  with o(1-4) f show ?thesis by blast
qed

lemma save_to_csv_without_id_sample:
  "save_to_csv permits_without_id ''out.csv'' (map_of [])
   = ((map_of [])(''out.csv'' \<mapsto>
        \<lparr> header = fieldnames,
          rows = [sample_row (JStr '''') (JStr ''a''), sample_row (JInt 8) (JStr '''')] \<rparr>),
      None)"
  by (simp add: save_to_csv_def permits_without_id_def sample_permit_def sample_row_def
      extract_permit_data_def geometry_lon_lat_def permit_type_label_def PERMIT_TYPES_def)




section \<open>Properties of the HTTP layer and of the marker loop\<close>

lemma get_permit_details_returns:
  "\<exists>details. get_permit_details srv pid sent = (Inr details, sent @ [GetDetails pid])"
  by (cases "srv (length sent) (GetDetails pid)") (simp_all add: get_permit_details_def)

lemma details_loop_skip:
  assumes "marker_id m = Inr v" and "\<not> truthy v"
  shows "details_loop srv (pre @ m # post) acc sent = details_loop srv (pre @ post) acc sent"
  using assms
  by (induction pre arbitrary: acc sent) (auto split: sum.splits prod.splits)

text \<open>Every request the loop adds is a detail request for the truthy identifier of one
  of its markers.\<close>

lemma details_loop_sent:
  "details_loop srv ms acc sent = (r, sent') \<Longrightarrow>
     \<exists>new. sent' = sent @ new
        \<and> (\<forall>q\<in>set new. \<exists>m\<in>set ms. \<exists>pid.
              q = GetDetails pid \<and> marker_id m = Inr pid \<and> truthy pid)"
proof (induction ms arbitrary: acc sent)
  case Nil
  then show ?case by simp
next
  case (Cons m ms)
  show ?case
  proof (cases "marker_id m")
    case (Inl e)
    with Cons.prems show ?thesis by simp
  next
    case (Inr pid)
    show ?thesis
    proof (cases "truthy pid")
      case False
      with Inr Cons.prems have "details_loop srv ms acc sent = (r, sent')" by simp
      from Cons.IH[OF this] show ?thesis by auto
    next
      case True
      from get_permit_details_returns obtain d where
        d: "get_permit_details srv pid sent = (Inr d, sent @ [GetDetails pid])"
        by blast
      let ?acc = "if truthy d then acc @ [d] else acc"
      from Inr True d Cons.prems
      have "details_loop srv ms ?acc (sent @ [GetDetails pid]) = (r, sent')"
        by (simp split: if_splits)
      from Cons.IH[OF this] obtain new where
        n: "sent' = (sent @ [GetDetails pid]) @ new"
           "\<forall>q\<in>set new. \<exists>m\<in>set ms. \<exists>pid.
               q = GetDetails pid \<and> marker_id m = Inr pid \<and> truthy pid"
        by blast
      have "sent' = sent @ (GetDetails pid # new)" using n(1) by simp
      moreover have "\<forall>q\<in>set (GetDetails pid # new). \<exists>m'\<in>set (m # ms). \<exists>pid.
                       q = GetDetails pid \<and> marker_id m' = Inr pid \<and> truthy pid"
        using n(2) Inr True by auto
      ultimately show ?thesis by blast
    qed
  qed
qed



text \<open>
  Claim C10. A location marker whose identifier \<^verbatim>\<open>properties.id\<close> is absent or falsy
  (a missing key, \<^verbatim>\<open>None\<close>, the number 0, the empty string) is skipped by
  \<^verbatim>\<open>scrape_bounding_box\<close>: the loop behaves as if the marker were not in the list, so
  nothing derived from it is in the result, and no detail request is sent for its
  identifier.
\<close>

theorem falsy_marker_id_is_skipped:
  assumes "marker_id m = Inr v" and "\<not> truthy v"
  shows "details_loop srv (pre @ m # post) acc sent = details_loop srv (pre @ post) acc sent
       \<and> (get_locations srv a b c d w tys sent = (Inr (JArr (pre @ m # post)), sent') \<longrightarrow>
            scrape_bounding_box srv a b c d w tys True sent
              = (case details_loop srv (pre @ post) [] sent' of
                   (Inl e, s) \<Rightarrow> (Inl e, s)
                 | (Inr ps, s) \<Rightarrow> (Inr (JArr ps), s)))
       \<and> (GetDetails v \<in> set (snd (details_loop srv ms acc sent)) \<longrightarrow> GetDetails v \<in> set sent)"
proof (intro conjI impI)
  show "details_loop srv (pre @ m # post) acc sent = details_loop srv (pre @ post) acc sent"
    by (rule details_loop_skip[OF assms])
next
  assume "get_locations srv a b c d w tys sent = (Inr (JArr (pre @ m # post)), sent')"
  then show "scrape_bounding_box srv a b c d w tys True sent
              = (case details_loop srv (pre @ post) [] sent' of
                   (Inl e, s) \<Rightarrow> (Inl e, s)
                 | (Inr ps, s) \<Rightarrow> (Inr (JArr ps), s))"
    by (simp add: scrape_bounding_box_def details_loop_skip[OF assms])
next
  assume in_log: "GetDetails v \<in> set (snd (details_loop srv ms acc sent))"
  obtain r sent' where e: "details_loop srv ms acc sent = (r, sent')"
    by (cases "details_loop srv ms acc sent")
  from details_loop_sent[OF e] obtain new where
    n: "sent' = sent @ new"
       "\<forall>q\<in>set new. \<exists>m\<in>set ms. \<exists>pid. q = GetDetails pid \<and> marker_id m = Inr pid \<and> truthy pid"
    by blast
  from n(2) assms(2) have "GetDetails v \<notin> set new" by auto
  with in_log e n(1) show "GetDetails v \<in> set sent" by simp
qed

text \<open>The service lists a marker with the identifier 0 and one with the identifier 5:
  only the second is fetched.\<close>

theorem falsy_marker_id_is_skipped_witness:
  "marker_id (sample_marker (JInt 0)) = Inr (JInt 0) \<and> \<not> truthy (JInt 0)
   \<and> scrape_bounding_box sample_server 55 57 10 12 30 [0, 1, 2, 3] True []
       = (Inr (JArr [sample_marker (JInt 5)]),
          [GetLocations 55 57 10 12 30 [0, 1, 2, 3], GetDetails (JInt 5)])"
proof -
  have 1: "marker_id (sample_marker (JInt 0)) = Inr (JInt 0)"
    by (simp add: marker_id_def sample_marker_def)
  have 2: "\<not> truthy (JInt 0)" by simp
  have 3: "get_locations sample_server 55 57 10 12 30 [0, 1, 2, 3] []
             = (Inr (JArr ([] @ sample_marker (JInt 0) # [sample_marker (JInt 5)])),
                [GetLocations 55 57 10 12 30 [0, 1, 2, 3]])"
    by (simp add: get_locations_def sample_server_def)
  have 4: "details_loop sample_server ([] @ [sample_marker (JInt 5)]) []
             [GetLocations 55 57 10 12 30 [0, 1, 2, 3]]
           = (Inr [sample_marker (JInt 5)],
              [GetLocations 55 57 10 12 30 [0, 1, 2, 3], GetDetails (JInt 5)])"
    by (simp add: marker_id_def sample_marker_def get_permit_details_def sample_server_def)
  from falsy_marker_id_is_skipped[OF 1 2, of sample_server "[]" "[sample_marker (JInt 5)]"
      "[]" "[]" 55 57 10 12 30 "[0, 1, 2, 3]" "[GetLocations 55 57 10 12 30 [0, 1, 2, 3]]"]
    1 2 3 4
  show ?thesis by simp
qed


section \<open>Properties of the grid\<close>






text \<open>The two grids of the repository: 3 rows of 4 cells over Stockholm, and 7 rows of 7
  cells over Sweden with the cell size 2 of \<^verbatim>\<open>scrape_sweden_all.py\<close>. A box that is not a
  multiple of the cell size gets a narrower last row and column.\<close>

lemma scrape_stockholm_cells_count:
  "map_option length scrape_stockholm_cells = Some 12"
  by (simp add: scrape_stockholm_cells_def grid_cells_def stockholm_bbox_def
      lat_loop.simps lon_loop.simps)

lemma scrape_sweden_cells_count:
  "map_option length (scrape_sweden_cells 2) = Some 49"
  by (simp add: scrape_sweden_cells_def grid_cells_def sweden_bbox_def
      lat_loop.simps lon_loop.simps)

lemma grid_cells_clipped:
  "grid_cells \<lparr> lat_min = 0, lat_max = 1, lon_min = 0, lon_max = 3 \<rparr> 2
   = Some [\<lparr> lat_min = 0, lat_max = 1, lon_min = 0, lon_max = 2 \<rparr>,
           \<lparr> lat_min = 0, lat_max = 1, lon_min = 2, lon_max = 3 \<rparr>]"
  by (simp add: grid_cells_def lat_loop.simps lon_loop.simps)


section \<open>Properties of the rate limiter\<close>

lemma rate_limit_wait_began:
  assumes "0 \<le> oversleep"
  shows "\<exists>self'. rate_limit_wait oversleep (self, now)
                    = (self', snd (rate_limit_wait oversleep (self, now)))
           \<and> rate_limit self' = rate_limit self
           \<and> last_request_time self' = snd (rate_limit_wait oversleep (self, now))
           \<and> last_request_time self + rate_limit self \<le> snd (rate_limit_wait oversleep (self, now))
           \<and> now \<le> snd (rate_limit_wait oversleep (self, now))"
  using assms by (simp add: rate_limit_wait_def time_sleep_def Let_def)

lemma issue_calls_spaced:
  assumes "\<forall>c\<in>set calls. 0 \<le> fst c \<and> 0 \<le> snd c"
  shows "length (issue_calls calls (self, now)) = length calls
       \<and> spaced (rate_limit self) (issue_calls calls (self, now))
       \<and> (\<forall>t\<in>set (issue_calls calls (self, now)).
             last_request_time self + rate_limit self \<le> t \<and> now \<le> t)"
  using assms
proof (induction calls arbitrary: self now)
  case Nil
  then show ?case by simp
next
  case (Cons c calls)
  obtain oversleep duration where c: "c = (oversleep, duration)" by (cases c)
  with Cons.prems have nn: "0 \<le> oversleep" "0 \<le> duration"
    and rest: "\<forall>c\<in>set calls. 0 \<le> fst c \<and> 0 \<le> snd c" by auto
  define began where "began = snd (rate_limit_wait oversleep (self, now))"
  from rate_limit_wait_began[OF nn(1), of self now] obtain self' where w:
    "rate_limit_wait oversleep (self, now) = (self', began)"
    "rate_limit self' = rate_limit self" "last_request_time self' = began"
    "last_request_time self + rate_limit self \<le> began" "now \<le> began"
    unfolding began_def by blast
  let ?ts = "issue_calls calls (self', began + duration)"
  from Cons.IH[OF rest, of self' "began + duration"] w(2,3) have IH:
    "length ?ts = length calls" "spaced (rate_limit self) ?ts"
    "\<forall>t\<in>set ?ts. began + rate_limit self \<le> t \<and> began + duration \<le> t"
    by auto
  have eq: "issue_calls (c # calls) (self, now) = began # ?ts" using c w(1) by simp
  have "spaced (rate_limit self) (began # ?ts)"
  proof (cases ?ts)
    case Nil
    then show ?thesis by simp
  next
    case (Cons t ts')
    with IH(2,3) show ?thesis by simp
  qed
  moreover have "\<forall>t\<in>set (began # ?ts). last_request_time self + rate_limit self \<le> t \<and> now \<le> t"
  proof
    fix t assume "t \<in> set (began # ?ts)"
    then consider "t = began" | "t \<in> set ?ts" by auto
    then show "last_request_time self + rate_limit self \<le> t \<and> now \<le> t"
    proof cases
      case 1
      with w(4,5) show ?thesis by simp
    next
      case 2
      with IH(3) have "began + duration \<le> t" by blast
      moreover from 2 IH(3) have "began + rate_limit self \<le> t" by blast
      ultimately show ?thesis using w(4,5) nn(2) by linarith
    qed
  qed
  ultimately show ?case using eq IH(1) by simp
qed

lemma spaced_span:
  "spaced T (t # ts) \<Longrightarrow> t + of_nat (length ts) * T \<le> last (t # ts)"
proof (induction ts arbitrary: t)
  case Nil
  then show ?case by simp
next
  case (Cons u ts)
  then have "t + T \<le> u" and "u + of_nat (length ts) * T \<le> last (u # ts)" by auto
  then show ?case by (simp add: algebra_simps)
qed

text \<open>
  Claim C6. The wait of the rate limiter delays the caller so that two consecutive
  requests issued through it begin at least \<^verbatim>\<open>rate_limit\<close> seconds apart, counted
  from the beginning of the earlier request; hence \<open>N\<close> calls take at least
  \<open>(N - 1) * rate_limit\<close> seconds from the first wait to the beginning of the last
  request; and the first call of a new scraper does not wait. (A sleep lasts at least
  as long as asked, a request takes no negative time, and the clock, which counts the
  seconds since 1970, reads at least \<^verbatim>\<open>rate_limit\<close> at the first call.)
\<close>

theorem rate_limiter_spaces_calls:
  assumes "\<forall>c\<in>set calls. 0 \<le> fst c \<and> 0 \<le> snd c"
  shows "length (issue_calls calls (self, now)) = length calls
       \<and> spaced (rate_limit self) (issue_calls calls (self, now))
       \<and> (calls \<noteq> [] \<longrightarrow>
            now + of_nat (length calls - 1) * rate_limit self
              \<le> last (issue_calls calls (self, now)))
       \<and> (rate_limit_seconds \<le> now \<longrightarrow>
            snd (rate_limit_wait oversleep (init_limiter rate_limit_seconds, now)) = now)"
proof -
  let ?ts = "issue_calls calls (self, now)"
  from issue_calls_spaced[OF assms, of self now] have s:
    "length ?ts = length calls" "spaced (rate_limit self) ?ts" "\<forall>t\<in>set ?ts. now \<le> t"
    by auto
  have "now + of_nat (length calls - 1) * rate_limit self \<le> last ?ts" if "calls \<noteq> []"
  proof -
    from that s(1) obtain t ts where ts: "?ts = t # ts" by (cases ?ts) auto
    with s(2) have "t + of_nat (length ts) * rate_limit self \<le> last ?ts"
      using spaced_span by metis
    moreover from ts s(3) have "now \<le> t" by simp
    moreover from ts s(1) have "length ts = length calls - 1" by simp
    ultimately show ?thesis by simp
  qed
  moreover have "rate_limit_seconds \<le> now \<longrightarrow>
      snd (rate_limit_wait oversleep (init_limiter rate_limit_seconds, now)) = now"
    by (simp add: rate_limit_wait_def init_limiter_def Let_def)
  ultimately show ?thesis using s(1,2) by blast
qed

text \<open>Three calls through a limiter of one second, the second request taking half a
  second and the third sleep a tenth of a second too long.\<close>

theorem rate_limiter_spaces_calls_witness:
  "issue_calls [(0, 0), (0, 1 / 2), (1 / 10, 3)] (init_limiter 1, 1700000000)
     = [1700000000, 1700000001, 17000000021 / 10]
   \<and> spaced 1 (issue_calls [(0, 0), (0, 1 / 2), (1 / 10, 3)] (init_limiter 1, 1700000000))
   \<and> 1700000000 + 2 * 1
       \<le> last (issue_calls [(0, 0), (0, 1 / 2), (1 / 10, 3)] (init_limiter 1, 1700000000))
   \<and> snd (rate_limit_wait 0 (init_limiter 1, 1700000000)) = 1700000000"
proof -
  have 1: "\<forall>c\<in>set [(0, 0), (0, 1 / 2), (1 / 10, 3 :: rat)]. (0::rat) \<le> fst c \<and> 0 \<le> snd c"
    by simp
  have 2: "issue_calls [(0, 0), (0, 1 / 2), (1 / 10, 3)] (init_limiter 1, 1700000000)
            = [1700000000, 1700000001, 17000000021 / 10]"
    by (simp add: rate_limit_wait_def init_limiter_def time_sleep_def Let_def)
  have 3: "rate_limit (init_limiter 1) = 1"
    by (simp add: init_limiter_def)
  from rate_limiter_spaces_calls[OF 1, of "init_limiter 1" 1700000000 1 0] 2 3
  show ?thesis by simp
qed

end
